theory Spec2Isabelle
  imports
    Main
    "HOL-Library.FSet"
    "HOL-Library.Multiset"
    "HOL-Library.Product_Lexorder"
begin

section \<open>Exceptions\<close>

text \<open>
  The Python exceptions the modelled code can raise. \<open>IndexError\<close> is what
  \<^verbatim>\<open>list.pop(0)\<close> and list indexing raise, \<open>AttributeError\<close> what a lookup of a
  missing attribute raises, \<open>KeyError\<close> what \<^verbatim>\<open>del d[k]\<close> raises. \<open>EmptyDeckError\<close>
  is named by the specification only: no function of the source raises it.
\<close>

datatype error = IndexError | AttributeError | KeyError | EmptyDeckError

section \<open>Cards, deck and hand (bot/uno/game.py)\<close>

text \<open>
  Modelled from the spec: class \<open>Card\<close> of bot/uno/cards.py, which game.py imports
  and which is not among the source files. A card has a colour (an enum member), a type
  (an enum member) and an optional numeric value. The enum members are represented by
  their \<^verbatim>\<open>.value\<close>, an integer (the annotation of \<^verbatim>\<open>Hand._card_sort_key\<close> is
  \<^verbatim>\<open>tuple[int, int, int]\<close>); equality is structural.
\<close>

record card =
  color :: int
  ctype :: int
  cvalue :: "int option"

type_synonym member = nat

text \<open>\<^verbatim>\<open>Deck._internal_deck\<close>: the ordered list of cards, front first.\<close>

type_synonym deck = "card list"

text \<open>
  \<^verbatim>\<open>Deck.pop\<close>: \<^verbatim>\<open>return self._internal_deck.pop(0)\<close>. On an empty list
  \<^verbatim>\<open>list.pop\<close> raises IndexError; otherwise the first element is removed and
  returned. The result is the popped card and the deck left.
\<close>

definition Deck_pop :: "deck \<Rightarrow> error + (card \<times> deck)" where
  "Deck_pop d = (case d of [] \<Rightarrow> Inl IndexError | c # rest \<Rightarrow> Inr (c, rest))"

text \<open>\<^verbatim>\<open>Deck.__len__\<close>.\<close>

definition Deck_len :: "deck \<Rightarrow> nat" where
  "Deck_len d = length d"

text \<open>
  \<^verbatim>\<open>Hand\<close>: the owning player and the list \<^verbatim>\<open>_cards\<close> in insertion order. The
  back reference \<^verbatim>\<open>game\<close> is used for \<^verbatim>\<open>game.deck\<close> only, so the operations below
  take the deck and return it updated.
\<close>

record hand =
  player :: member
  h_cards :: "card list"

text \<open>\<^verbatim>\<open>Hand.__init__\<close>.\<close>

definition Hand_init :: "member \<Rightarrow> hand" where
  "Hand_init p = \<lparr>player = p, h_cards = []\<rparr>"

text \<open>
  The operations that mutate return the outcome (\<open>Inl\<close> the exception raised,
  \<open>Inr\<close> the value returned) together with the objects as the call leaves them, so
  that what was mutated before an exception is kept.

  \<^verbatim>\<open>Hand._draw_one\<close>: pop a card from the deck, append it to \<^verbatim>\<open>_cards\<close>, return
  it. An exception of the pop propagates before anything is appended.
\<close>

definition draw_one :: "hand \<Rightarrow> deck \<Rightarrow> (error + card) \<times> hand \<times> deck" where
  "draw_one h d =
     (case Deck_pop d of
        Inl e \<Rightarrow> (Inl e, h, d)
      | Inr (c, d') \<Rightarrow> (Inr c, h\<lparr>h_cards := h_cards h @ [c]\<rparr>, d'))"

text \<open>
  The list comprehension \<^verbatim>\<open>[self._draw_one() for _ in range(amount)]\<close>: the cards
  are collected in the order they are drawn; the first exception ends it.
\<close>

fun draw_many :: "nat \<Rightarrow> hand \<Rightarrow> deck \<Rightarrow> (error + card list) \<times> hand \<times> deck" where
  "draw_many 0 h d = (Inr [], h, d)"
| "draw_many (Suc k) h d =
     (case draw_one h d of
        (Inl e, h', d') \<Rightarrow> (Inl e, h', d')
      | (Inr c, h', d') \<Rightarrow>
          (case draw_many k h' d' of
             (Inl e, h'', d'') \<Rightarrow> (Inl e, h'', d'')
           | (Inr cs, h'', d'') \<Rightarrow> (Inr (c # cs), h'', d'')))"

text \<open>
  \<^verbatim>\<open>Hand.draw\<close> returns a single card when \<^verbatim>\<open>amount == 1\<close> and a list otherwise
  (\<^verbatim>\<open>range\<close> of a non-positive amount is empty).
\<close>

datatype drawn = One card | Many "card list"

definition Hand_draw :: "int \<Rightarrow> hand \<Rightarrow> deck \<Rightarrow> (error + drawn) \<times> hand \<times> deck" where
  "Hand_draw amount h d =
     (if amount = 1 then
        (case draw_one h d of
           (Inl e, h', d') \<Rightarrow> (Inl e, h', d')
         | (Inr c, h', d') \<Rightarrow> (Inr (One c), h', d'))
      else
        (case draw_many (nat amount) h d of
           (Inl e, h', d') \<Rightarrow> (Inl e, h', d')
         | (Inr cs, h', d') \<Rightarrow> (Inr (Many cs), h', d')))"

text \<open>
  \<^verbatim>\<open>Hand._card_sort_key\<close>: \<^verbatim>\<open>(card.color.value, card.type.value, card.value or 0)\<close>.
  Python's \<^verbatim>\<open>or\<close> yields 0 when the value is None or 0. Tuples compare
  lexicographically, as products do here.
\<close>

definition card_sort_key :: "card \<Rightarrow> int \<times> int \<times> int" where
  "card_sort_key c =
     (color c, ctype c, (case cvalue c of None \<Rightarrow> 0 | Some v \<Rightarrow> if v = 0 then 0 else v))"

text \<open>
  The property \<^verbatim>\<open>Hand.cards\<close>: \<^verbatim>\<open>sorted(self._cards, key=self._card_sort_key)\<close>.
  \<^verbatim>\<open>sorted\<close> builds a new list with a stable sort, which is what \<^const>\<open>sort_key\<close>
  computes. The second component is the hand after the read.
\<close>

definition Hand_cards :: "hand \<Rightarrow> card list \<times> hand" where
  "Hand_cards h = (sort_key card_sort_key (h_cards h), h)"

section \<open>Randomness\<close>

text \<open>
  \<^verbatim>\<open>random.shuffle(x)\<close> of Python's standard library, the shuffle both
  \<^verbatim>\<open>Deck.shuffle\<close> and \<^verbatim>\<open>UNO._run_initial_prompts\<close> call:
  \<^verbatim>\<open>for i in reversed(range(1, len(x))): j = randbelow(i + 1); x[i], x[j] = x[j], x[i]\<close>.
  The random source is an argument: \<open>rb i\<close> is the number drawn at position \<open>i\<close>,
  reduced below \<open>i + 1\<close> as \<^verbatim>\<open>randbelow\<close> guarantees.
\<close>

fun shuffle_steps :: "(nat \<Rightarrow> nat) \<Rightarrow> nat \<Rightarrow> 'a list \<Rightarrow> 'a list" where
  "shuffle_steps rb 0 xs = xs"
| "shuffle_steps rb (Suc i) xs =
     (let j = rb (Suc i) mod (Suc i + 1)
      in shuffle_steps rb i (xs[Suc i := xs ! j, j := xs ! Suc i]))"

definition random_shuffle :: "(nat \<Rightarrow> nat) \<Rightarrow> 'a list \<Rightarrow> 'a list" where
  "random_shuffle rb xs = shuffle_steps rb (length xs - 1) xs"

text \<open>\<^verbatim>\<open>Deck.shuffle\<close>.\<close>

definition Deck_shuffle :: "(nat \<Rightarrow> nat) \<Rightarrow> deck \<Rightarrow> deck" where
  "Deck_shuffle rb d = random_shuffle rb d"

section \<open>Rule set (bot/uno/game.py)\<close>

text \<open>The dataclass \<^verbatim>\<open>RuleSet\<close> and its default values.\<close>

record RuleSet =
  stacking :: bool
  progressive :: bool
  seven_o :: bool
  jump_in :: bool

definition RuleSet_default :: RuleSet where
  "RuleSet_default =
     \<lparr>stacking = True, progressive = True, seven_o = False, jump_in = False\<rparr>"

text \<open>The keys of \<^verbatim>\<open>RuleSetPrompt.CHOICES\<close>, in the order the dict iterates them.\<close>

definition CHOICES :: "string list" where
  "CHOICES = [''stacking'', ''progressive'', ''seven_o'', ''jump_in'']"

text \<open>
  \<^verbatim>\<open>setattr(rule_set, name, flag)\<close> on the dataclass. Any other name would create a
  new attribute and leave the four fields as they are.
\<close>

definition setattr_RuleSet :: "RuleSet \<Rightarrow> string \<Rightarrow> bool \<Rightarrow> RuleSet" where
  "setattr_RuleSet r name flag =
     (if name = ''stacking'' then r\<lparr>stacking := flag\<rparr>
      else if name = ''progressive'' then r\<lparr>progressive := flag\<rparr>
      else if name = ''seven_o'' then r\<lparr>seven_o := flag\<rparr>
      else if name = ''jump_in'' then r\<lparr>jump_in := flag\<rparr>
      else r)"

text \<open>
  The loop of \<^verbatim>\<open>RuleSetPrompt.callback\<close>:
  \<^verbatim>\<open>for value in self.CHOICES: setattr(self.game.rule_set, value, value in values)\<close>,
  where \<^verbatim>\<open>values\<close> is the list of selected option values of the interaction.
\<close>

definition set_flags :: "string list \<Rightarrow> RuleSet \<Rightarrow> RuleSet" where
  "set_flags vals r = fold (\<lambda>name r'. setattr_RuleSet r' name (name \<in> set vals)) CHOICES r"

section \<open>The session (class UNO of bot/uno/game.py)\<close>

text \<open>What the single message of a session shows, as \<^verbatim>\<open>UNO._send\<close> last set it.\<close>

datatype content = Choose_rules | Opening | Roster "member fset"

record session =
  host :: member
  rule_set :: "RuleSet option"
  players :: "member fset"
  deck :: deck
  hands :: "hand list"
  current :: "card option"
  turn :: int
  message :: "content option"

text \<open>
  \<^verbatim>\<open>UNO.__init__\<close>. \<open>author\<close> is \<^verbatim>\<open>ctx.author\<close>; \<open>fresh\<close> is the list that
  \<^verbatim>\<open>create_deck()\<close> of bot/uno/cards.py returns (that file is not among the sources,
  so the list is an argument).
\<close>

definition UNO_init ::
    "member \<Rightarrow> member option \<Rightarrow> RuleSet option \<Rightarrow> member list \<Rightarrow> deck \<Rightarrow> session" where
  "UNO_init author h rs ps fresh =
     \<lparr>host = (case h of None \<Rightarrow> author | Some m \<Rightarrow> m),
      rule_set = rs,
      players = fset_of_list ps,
      deck = fresh,
      hands = [],
      current = None,
      turn = 0,
      message = None\<rparr>"

text \<open>
  The property \<^verbatim>\<open>UNO.current_hand\<close>: \<^verbatim>\<open>self.hands[self.turn]\<close>, with Python's
  indexing (a negative index counts from the end; out of range raises IndexError).
\<close>

definition current_hand :: "session \<Rightarrow> error + hand" where
  "current_hand g =
     (if 0 \<le> turn g \<and> turn g < int (length (hands g)) then Inr (hands g ! nat (turn g))
      else if turn g < 0 \<and> - int (length (hands g)) \<le> turn g
        then Inr (hands g ! nat (int (length (hands g)) + turn g))
      else Inl IndexError)"

text \<open>
  \<^verbatim>\<open>UNO._send\<close>: the first call sends the message, later calls edit it; either
  way the session's one message then shows the content.
\<close>

definition UNO_send :: "content \<Rightarrow> session \<Rightarrow> session" where
  "UNO_send c g = g\<lparr>message := Some c\<rparr>"

text \<open>
  \<^verbatim>\<open>UNO.choose_rule_set\<close>: the rule set becomes the default one and the prompt is
  sent. The coroutine returns once the message is sent; it does not wait for the host.
\<close>

definition choose_rule_set :: "session \<Rightarrow> session" where
  "choose_rule_set g = UNO_send Choose_rules (g\<lparr>rule_set := Some RuleSet_default\<rparr>)"

text \<open>
  \<^verbatim>\<open>UNO._run_initial_prompts\<close>: after \<^verbatim>\<open>choose_rule_set\<close>, one empty hand per
  member of \<^verbatim>\<open>players\<close>, then shuffled. A Python set iterates in an order of its
  own; the model lists the members in ascending order, and the shuffle that follows
  rearranges them as the random source says.
\<close>

definition run_initial_prompts :: "(nat \<Rightarrow> nat) \<Rightarrow> session \<Rightarrow> session" where
  "run_initial_prompts rb g =
     (let g1 = choose_rule_set g
      in g1\<lparr>hands := random_shuffle rb (map Hand_init (sorted_list_of_fset (players g1)))\<rparr>)"

text \<open>
  \<^verbatim>\<open>UNO._deal_cards\<close>: \<^verbatim>\<open>for hand in self.hands: hand.draw(7)\<close>, on the list of
  hands and the deck. An exception leaves the hands dealt so far as they are.
\<close>

fun deal_loop :: "hand list \<Rightarrow> deck \<Rightarrow> (error + unit) \<times> hand list \<times> deck" where
  "deal_loop [] d = (Inr (), [], d)"
| "deal_loop (h # hs) d =
     (case Hand_draw 7 h d of
        (Inl e, h', d') \<Rightarrow> (Inl e, h' # hs, d')
      | (Inr _, h', d') \<Rightarrow>
          (case deal_loop hs d' of (r, hs', d'') \<Rightarrow> (r, h' # hs', d'')))"

definition deal_cards :: "session \<Rightarrow> (error + unit) \<times> session" where
  "deal_cards g =
     (case deal_loop (hands g) (deck g) of
        (r, hs, d) \<Rightarrow> (r, g\<lparr>hands := hs, deck := d\<rparr>))"

text \<open>
  \<^verbatim>\<open>UNO._setup\<close>: shuffle the deck, pop the first card into \<^verbatim>\<open>current\<close>, deal.
\<close>

definition UNO_setup :: "(nat \<Rightarrow> nat) \<Rightarrow> session \<Rightarrow> (error + unit) \<times> session" where
  "UNO_setup rb g =
     (let g1 = g\<lparr>deck := Deck_shuffle rb (deck g)\<rparr>
      in case Deck_pop (deck g1) of
           Inl e \<Rightarrow> (Inl e, g1)
         | Inr (c, d) \<Rightarrow> deal_cards (g1\<lparr>deck := d, current := Some c\<rparr>))"

text \<open>
  \<^verbatim>\<open>UNO.start\<close>: \<^verbatim>\<open>_run_initial_prompts\<close>, then \<^verbatim>\<open>_setup\<close>. \<open>rb_h\<close> drives
  the shuffle of the hands, \<open>rb_d\<close> the shuffle of the deck.
\<close>

definition UNO_start ::
    "(nat \<Rightarrow> nat) \<Rightarrow> (nat \<Rightarrow> nat) \<Rightarrow> session \<Rightarrow> (error + unit) \<times> session" where
  "UNO_start rb_h rb_d g = UNO_setup rb_d (run_initial_prompts rb_h g)"

text \<open>
  \<^verbatim>\<open>game.wait()\<close>, which \<^verbatim>\<open>play_uno\<close> awaits: class \<^verbatim>\<open>UNO\<close> has no base class
  and defines no attribute \<^verbatim>\<open>wait\<close>, so the lookup raises AttributeError.
\<close>

definition UNO_wait :: "session \<Rightarrow> error + unit" where
  "UNO_wait g = Inl AttributeError"

section \<open>Interaction handlers (bot/uno/game.py)\<close>

text \<open>
  What a handler answers: an ephemeral notice to the acting member, a deferred
  response, a re-rendered message, the view stopped, or an exception raised.
\<close>

datatype response = Notice string | Deferred | Rendered | Stopped | Raised error

text \<open>
  \<^verbatim>\<open>HostOnlyView.interaction_check\<close>: \<open>Some\<close> the notice sent when the check
  returns False, \<open>None\<close> when it returns True.
\<close>

definition interaction_check :: "member \<Rightarrow> member \<Rightarrow> response option" where
  "interaction_check view_owner user =
     (if user \<noteq> view_owner then Some (Notice ''You are not the host of this game.'')
      else None)"

text \<open>
  \<^verbatim>\<open>RuleSetPrompt.callback\<close>. When \<^verbatim>\<open>rule_set\<close> is None the first
  \<^verbatim>\<open>setattr\<close> raises AttributeError.
\<close>

definition RuleSetPrompt_callback :: "string list \<Rightarrow> session \<Rightarrow> response \<times> session" where
  "RuleSetPrompt_callback vals g =
     (case rule_set g of
        None \<Rightarrow> (Raised AttributeError, g)
      | Some r \<Rightarrow> (Deferred, g\<lparr>rule_set := Some (set_flags vals r)\<rparr>))"

text \<open>
  The state of a \<^verbatim>\<open>PlayerQueueingView\<close>: the game (whose \<^verbatim>\<open>players\<close> set the
  view shares, \<^verbatim>\<open>self.players = game.players\<close> being the same object), the
  \<^verbatim>\<open>disabled\<close> flag of the "Start!" button, and whether \<^verbatim>\<open>stop()\<close> was called.
\<close>

record queueing =
  game :: session
  start_disabled :: bool
  stopped :: bool

text \<open>\<^verbatim>\<open>PlayerQueueingView.__init__\<close>.\<close>

definition PlayerQueueingView_init :: "session \<Rightarrow> queueing" where
  "PlayerQueueingView_init g =
     \<lparr>game = g\<lparr>players := finsert (host g) (players g)\<rparr>,
      start_disabled = True,
      stopped = False\<rparr>"

text \<open>\<^verbatim>\<open>PlayerQueueingView._update\<close>.\<close>

definition update :: "queueing \<Rightarrow> queueing" where
  "update v =
     (let v1 = v\<lparr>start_disabled := (fcard (players (game v)) > 1)\<rparr>
      in v1\<lparr>game := UNO_send (Roster (players (game v1))) (game v1)\<rparr>)"

text \<open>\<^verbatim>\<open>PlayerQueueingView.join\<close>.\<close>

definition join :: "member \<Rightarrow> queueing \<Rightarrow> response \<times> queueing" where
  "join user v =
     (if user |\<in>| players (game v) then (Notice ''You are already in this game.'', v)
      else (Rendered, update (v\<lparr>game := (game v)\<lparr>players := finsert user (players (game v))\<rparr>\<rparr>)))"

text \<open>\<^verbatim>\<open>PlayerQueueingView.leave\<close>.\<close>

definition leave :: "member \<Rightarrow> queueing \<Rightarrow> response \<times> queueing" where
  "leave user v =
     (if user |\<notin>| players (game v) then (Notice ''You are not in this game.'', v)
      else if user = host (game v)
        then (Notice ''You cannot leave this game as you are the host.'', v)
      else (Rendered, update (v\<lparr>game := (game v)\<lparr>players := players (game v) |-| {|user|}\<rparr>\<rparr>)))"

text \<open>The callback of \<^verbatim>\<open>immediate_start_button\<close>.\<close>

definition start_now :: "member \<Rightarrow> queueing \<Rightarrow> response \<times> queueing" where
  "start_now user v =
     (if user \<noteq> host (game v) then (Notice ''Only the host can start this game.'', v)
      else if fcard (players (game v)) < 2
        then (Notice ''There must be at least 2 players in order to start this game.'', v)
      else (Stopped, v\<lparr>stopped := True\<rparr>))"

text \<open>
  \<^verbatim>\<open>UNO.queue_players\<close> up to its \<^verbatim>\<open>await view.wait()\<close>: the view is created,
  the opening message sent, the roster rendered.
\<close>

definition queue_players :: "session \<Rightarrow> queueing" where
  "queue_players g =
     (let v = PlayerQueueingView_init g
      in update (v\<lparr>game := UNO_send Opening (game v)\<rparr>))"

text \<open>
  The interactions a participant can send, and their dispatch as the views do it: the
  rule selection sits on a \<^verbatim>\<open>RuleSetPromptingView\<close>, a \<^verbatim>\<open>HostOnlyView\<close> owned by
  the host, whose \<^verbatim>\<open>interaction_check\<close> runs first and whose callback runs only if
  the check returned True; join, leave and start-now belong to the queueing view.
\<close>

datatype event =
    Rule_change member "string list"
  | Join member
  | Leave member
  | Start_now member

fun handle :: "event \<Rightarrow> queueing \<Rightarrow> response \<times> queueing" where
  "handle (Rule_change user vals) v =
     (case interaction_check (host (game v)) user of
        Some notice \<Rightarrow> (notice, v)
      | None \<Rightarrow>
          (case RuleSetPrompt_callback vals (game v) of (r, g') \<Rightarrow> (r, v\<lparr>game := g'\<rparr>)))"
| "handle (Join user) v = join user v"
| "handle (Leave user) v = leave user v"
| "handle (Start_now user) v = start_now user v"

text \<open>A sequence of interactions, handled one at a time in the order delivered.\<close>

fun run :: "event list \<Rightarrow> queueing \<Rightarrow> queueing" where
  "run [] v = v"
| "run (ev # evs) v = run evs (snd (handle ev v))"

text \<open>
  The interactions that the specification calls rejected: a member other than the host
  changing the rules or starting, a join by a member, a leave by a non-member or by the
  host, a start with fewer than two players.
\<close>

fun rejected :: "event \<Rightarrow> queueing \<Rightarrow> bool" where
  "rejected (Rule_change user vals) v = (user \<noteq> host (game v))"
| "rejected (Join user) v = (user |\<in>| players (game v))"
| "rejected (Leave user) v = (user |\<notin>| players (game v) \<or> user = host (game v))"
| "rejected (Start_now user) v = (user \<noteq> host (game v) \<or> fcard (players (game v)) < 2)"

fun is_notice :: "response \<Rightarrow> bool" where
  "is_notice (Notice m) = True"
| "is_notice r = False"

text \<open>
  The "Start!" button as \<^verbatim>\<open>_update\<close> sets it: disabled exactly when there is more
  than one player.
\<close>

definition button_follows_roster :: "queueing \<Rightarrow> bool" where
  "button_follows_roster v = (start_disabled v = (1 < fcard (players (game v))))"

section \<open>The play command (bot/extensions/uno.py)\<close>

text \<open>
  \<^verbatim>\<open>UNOBot.uno_instances\<close>: the dict from channel ids to games. The games are
  objects, so the entry of a channel shows the game as it currently is.
\<close>

type_synonym registry = "nat \<rightharpoonup> session"

text \<open>
  The end of \<^verbatim>\<open>play_uno\<close>: \<^verbatim>\<open>del\<close> of the channel's entry, a KeyError of a
  missing entry being caught and passed over.
\<close>

definition unregister :: "nat \<Rightarrow> registry \<Rightarrow> registry" where
  "unregister ch reg =
     (case (case reg ch of None \<Rightarrow> Inl KeyError | Some g \<Rightarrow> Inr (reg(ch := None))) of
        Inl e \<Rightarrow> reg
      | Inr reg' \<Rightarrow> reg')"

text \<open>
  How the command ends when no exception leaves it: with the message it sent to the
  channel of the requester, or having reached its last statement.
\<close>

datatype outcome = Sent string | Finished

definition already_running :: outcome where
  "already_running = Sent ''An instance of UNO is already running in this channel.''"

text \<open>
  \<^verbatim>\<open>UNO.play_uno\<close> (the command of the cog) for a command of \<open>author\<close> in channel
  \<open>ch\<close>. An exception of \<^verbatim>\<open>game.start()\<close> or \<^verbatim>\<open>game.wait()\<close> leaves the
  function there: the \<^verbatim>\<open>del\<close> is not in a \<^verbatim>\<open>finally\<close>.
\<close>

definition play_uno ::
    "(nat \<Rightarrow> nat) \<Rightarrow> (nat \<Rightarrow> nat) \<Rightarrow> deck \<Rightarrow> member \<Rightarrow> nat \<Rightarrow> registry
      \<Rightarrow> (error + outcome) \<times> registry" where
  "play_uno rb_h rb_d fresh author ch reg =
     (case reg ch of
        Some running \<Rightarrow> (Inr already_running, reg)
      | None \<Rightarrow>
          (let g = UNO_init author None None [] fresh;
               reg1 = reg(ch \<mapsto> g)
           in case UNO_start rb_h rb_d g of
                (Inl e, g') \<Rightarrow> (Inl e, reg1(ch \<mapsto> g'))
              | (Inr _, g') \<Rightarrow>
                  (case UNO_wait g' of
                     Inl e \<Rightarrow> (Inl e, reg1(ch \<mapsto> g'))
                   | Inr _ \<Rightarrow> (Inr Finished, unregister ch (reg1(ch \<mapsto> g'))))))"

section \<open>Concrete values for the examples\<close>

definition card_a :: card where
  "card_a = \<lparr>color = 1, ctype = 0, cvalue = Some 5\<rparr>"

definition card_b :: card where
  "card_b = \<lparr>color = 0, ctype = 1, cvalue = None\<rparr>"

definition card_c :: card where
  "card_c = \<lparr>color = 1, ctype = 0, cvalue = Some 0\<rparr>"

definition card_d :: card where
  "card_d = \<lparr>color = 0, ctype = 0, cvalue = Some 9\<rparr>"

definition hand_empty :: hand where
  "hand_empty = Hand_init 7"

text \<open>A random source that always draws 0.\<close>

definition draws_zero :: "nat \<Rightarrow> nat" where
  "draws_zero i = 0"

text \<open>
  The session \<^verbatim>\<open>play_uno\<close> constructs (\<^verbatim>\<open>UNOGame(ctx)\<close>: no players yet), here
  for member 1 and a deck of two cards; a session constructed with two players and twenty
  cards; and the queueing view of the first.
\<close>

definition session_none :: session where
  "session_none = UNO_init 1 None None [] [card_a, card_b]"

definition session_two :: session where
  "session_two = UNO_init 1 None None [1, 2] (replicate 20 card_a)"

definition queue_one :: queueing where
  "queue_one = queue_players session_none"

section \<open>Properties of deck and hand\<close>

lemma Deck_pop_Nil: "Deck_pop [] = Inl IndexError"
  by (simp add: Deck_pop_def)

lemma Deck_pop_Cons: "Deck_pop (c # d) = Inr (c, d)"
  by (simp add: Deck_pop_def)

lemma draw_one_Nil: "draw_one h [] = (Inl IndexError, h, [])"
  by (simp add: draw_one_def Deck_pop_Nil)

lemma draw_one_Cons: "draw_one h (c # d) = (Inr c, h\<lparr>h_cards := h_cards h @ [c]\<rparr>, d)"
  by (simp add: draw_one_def Deck_pop_Cons)

lemma draw_many_enough:
  "k \<le> length d \<Longrightarrow>
   draw_many k h d = (Inr (take k d), h\<lparr>h_cards := h_cards h @ take k d\<rparr>, drop k d)"
proof (induction k arbitrary: h d)
  case 0
  then show ?case by simp
next
  case (Suc k)
  then obtain c rest where d: "d = c # rest"
    by (cases d) auto
  with Suc.prems have "k \<le> length rest" by simp
  from Suc.IH [OF this] show ?case
    by (simp add: d draw_one_Cons)
qed

lemma draw_many_short:
  "length d < k \<Longrightarrow> draw_many k h d = (Inl IndexError, h\<lparr>h_cards := h_cards h @ d\<rparr>, [])"
proof (induction k arbitrary: h d)
  case 0
  then show ?case by simp
next
  case (Suc k)
  show ?case
  proof (cases d)
    case Nil
    then show ?thesis by (simp add: draw_one_Nil)
  next
    case (Cons c rest)
    with Suc.prems have "length rest < k" by simp
    from Suc.IH [OF this] show ?thesis
      by (simp add: Cons draw_one_Cons)
  qed
qed

lemma Hand_draw_enough:
  assumes "1 \<le> n" and "n \<le> int (length d)"
  shows "Hand_draw n h d =
    (Inr (if n = 1 then One (hd d) else Many (take (nat n) d)),
     h\<lparr>h_cards := h_cards h @ take (nat n) d\<rparr>, drop (nat n) d)"
proof (cases "n = 1")
  case True
  with assms obtain c rest where "d = c # rest"
    by (cases d) auto
  with True show ?thesis
    by (simp add: Hand_draw_def draw_one_Cons)
next
  case False
  from assms have "nat n \<le> length d" by simp
  from draw_many_enough [OF this] False show ?thesis
    by (simp add: Hand_draw_def)
qed

subsection \<open>Deck.pop\<close>

text \<open>
  C4 (as the code has it). \<open>Deck.pop\<close> on a non-empty deck returns the card at the
  front of the sequence and leaves the rest of the sequence, one card shorter; on an empty
  deck it fails, and the exception is Python's IndexError.
\<close>

theorem Deck_pop_contract:
  "(case d of
      [] \<Rightarrow> Deck_pop d = Inl IndexError
    | c # rest \<Rightarrow> Deck_pop d = Inr (c, rest) \<and> Suc (Deck_len rest) = Deck_len d)"
  by (simp add: Deck_pop_def Deck_len_def split: list.split)

theorem Deck_pop_contract_witness:
  "Deck_pop [card_a, card_b] = Inr (card_a, [card_b]) \<and> Deck_pop [] = Inl IndexError"
  using Deck_pop_contract [of "[card_a, card_b]"] Deck_pop_contract [of "[]"]
  by simp

text \<open>
  C4 as stated fails: popping the empty deck does not raise an \<open>EmptyDeckError\<close>.
\<close>

theorem Deck_pop_empty_counterexample:
  "Deck_pop [] = Inl IndexError \<and> Deck_pop [] \<noteq> Inl EmptyDeckError"
  by (simp add: Deck_pop_def)

subsection \<open>Hand.draw\<close>

text \<open>
  C6 (as the code has it). For \<open>n \<ge> 1\<close> and a deck of at least \<open>n\<close> cards,
  \<open>Hand.draw(n)\<close> succeeds; the hand is the old hand followed by the first \<open>n\<close>
  cards of the deck in pop order, the deck is the old deck without them, so the hand grows
  and the deck shrinks by exactly \<open>n\<close> and the cards of hand and deck together are
  conserved; \<open>draw(1)\<close> returns the single card, \<open>draw(n)\<close> for \<open>n > 1\<close> the
  list of the drawn cards in draw order. No card is in both afterward when the deck held
  no card twice and shared none with the hand before.
\<close>

theorem Hand_draw_spec:
  assumes "1 \<le> n" and "n \<le> int (length d)"
  shows "\<exists>r h' d'. Hand_draw n h d = (Inr r, h', d') \<and>
    h_cards h' = h_cards h @ take (nat n) d \<and> d' = drop (nat n) d \<and>
    player h' = player h \<and>
    length (h_cards h') = length (h_cards h) + nat n \<and>
    length d' + nat n = length d \<and>
    mset (h_cards h') + mset d' = mset (h_cards h) + mset d \<and>
    r = (if n = 1 then One (hd d) else Many (take (nat n) d)) \<and>
    (distinct d \<and> set (h_cards h) \<inter> set d = {} \<longrightarrow> set (h_cards h') \<inter> set d' = {})"
proof -
  let ?k = "nat n"
  from assms have k: "?k \<le> length d" by simp
  have conserve: "mset (h_cards h @ take ?k d) + mset (drop ?k d) = mset (h_cards h) + mset d"
  proof -
    have "mset (take ?k d) + mset (drop ?k d) = mset (take ?k d @ drop ?k d)"
      by (simp only: mset_append)
    then show ?thesis by simp
  qed
  have apart: "set (h_cards h @ take ?k d) \<inter> set (drop ?k d) = {}"
    if dist: "distinct d" and disj: "set (h_cards h) \<inter> set d = {}"
  proof -
    from dist have "distinct (take ?k d @ drop ?k d)" by simp
    then have "set (take ?k d) \<inter> set (drop ?k d) = {}"
      by (simp only: distinct_append)
    moreover from disj set_drop_subset [of ?k d]
    have "set (h_cards h) \<inter> set (drop ?k d) = {}" by blast
    ultimately show ?thesis by auto
  qed
  from k conserve apart show ?thesis
    by (simp add: Hand_draw_enough [OF assms] del: mset_append)
qed

theorem Hand_draw_spec_witness:
  "\<exists>r h' d'. Hand_draw 2 hand_empty [card_a, card_b, card_c] = (Inr r, h', d') \<and>
     h_cards h' = [card_a, card_b] \<and> d' = [card_c] \<and> r = Many [card_a, card_b] \<and>
     set (h_cards h') \<inter> set d' = {}"
proof -
  have ne: "card_a \<noteq> card_b" "card_a \<noteq> card_c" "card_b \<noteq> card_c"
    by (simp_all add: card_a_def card_b_def card_c_def)
  have pre: "(1::int) \<le> 2" "(2::int) \<le> int (length [card_a, card_b, card_c])"
    by simp_all
  from Hand_draw_spec [OF pre, of hand_empty] ne show ?thesis
    by (auto simp add: hand_empty_def Hand_init_def)
qed

text \<open>
  C6 as stated fails on a deck that holds a card twice: after drawing one copy, the card
  is in the hand and in the deck.
\<close>

theorem Hand_draw_counterexample:
  "Hand_draw 1 hand_empty [card_a, card_a] =
     (Inr (One card_a), hand_empty\<lparr>h_cards := [card_a]\<rparr>, [card_a]) \<and>
   set (h_cards (hand_empty\<lparr>h_cards := [card_a]\<rparr>)) \<inter> set [card_a] \<noteq> {}"
  by (simp add: Hand_draw_def draw_one_Cons hand_empty_def Hand_init_def)

subsection \<open>Hand.cards\<close>

text \<open>
  The key that \<open>Hand._card_sort_key\<close> computes, written out: the colour, the type, and
  the numeric value with 0 for a card that has none.
\<close>

lemma card_sort_key_explicit:
  "card_sort_key = (\<lambda>c. (color c, ctype c, case cvalue c of None \<Rightarrow> 0 | Some v \<Rightarrow> v))"
  by (rule ext) (simp add: card_sort_key_def split: option.split)

text \<open>
  C9. Whatever the insertion order, \<open>Hand.cards\<close> is sorted non-decreasingly by the
  triple (colour, type, numeric value with 0 for a card without one), compared
  lexicographically: of two cards in the list, the earlier has the smaller colour, or the
  same colour and the smaller type, or the same colour and type and a value not greater.
  The list is a rearrangement of the stored cards that keeps cards of equal key in their
  stored order, and the read leaves the hand, its storage order included, as it was.
\<close>

theorem Hand_cards_sorted:
  "sorted (map (\<lambda>c. (color c, ctype c, case cvalue c of None \<Rightarrow> 0 | Some v \<Rightarrow> v))
      (fst (Hand_cards h))) \<and>
   sorted_wrt (\<lambda>a b. color a < color b \<or>
        color a = color b \<and>
          (ctype a < ctype b \<or>
           ctype a = ctype b \<and>
             (case cvalue a of None \<Rightarrow> 0 | Some v \<Rightarrow> v) \<le>
             (case cvalue b of None \<Rightarrow> 0 | Some v \<Rightarrow> v)))
      (fst (Hand_cards h)) \<and>
   mset (fst (Hand_cards h)) = mset (h_cards h) \<and>
   filter (\<lambda>c. (color c, ctype c, case cvalue c of None \<Rightarrow> 0 | Some v \<Rightarrow> v) = k)
       (fst (Hand_cards h)) =
     filter (\<lambda>c. (color c, ctype c, case cvalue c of None \<Rightarrow> 0 | Some v \<Rightarrow> v) = k)
       (h_cards h) \<and>
   snd (Hand_cards h) = h"
proof -
  let ?key = "\<lambda>c. (color c, ctype c, case cvalue c of None \<Rightarrow> (0::int) | Some v \<Rightarrow> v)"
  let ?out = "sort_key ?key (h_cards h)"
  have out: "fst (Hand_cards h) = ?out" and same: "snd (Hand_cards h) = h"
    by (simp_all add: Hand_cards_def card_sort_key_explicit)
  have byKey: "sorted (map ?key ?out)"
    by (rule sorted_sort_key)
  then have "sorted_wrt (\<lambda>a b. ?key a \<le> ?key b) ?out"
    by (simp only: sorted_map)
  then have lex: "sorted_wrt (\<lambda>a b. color a < color b \<or>
        color a = color b \<and>
          (ctype a < ctype b \<or>
           ctype a = ctype b \<and>
             (case cvalue a of None \<Rightarrow> 0 | Some v \<Rightarrow> v) \<le>
             (case cvalue b of None \<Rightarrow> 0 | Some v \<Rightarrow> v))) ?out"
    by (rule sorted_wrt_mono_rel [rotated]) (auto simp add: less_eq_prod_def)
  have stable: "filter (\<lambda>c. ?key c = k) ?out = filter (\<lambda>c. ?key c = k) (h_cards h)"
    by (rule sort_key_stable)
  have perm: "mset ?out = mset (h_cards h)"
    by simp
  from byKey lex perm stable same show ?thesis
    by (simp only: out)
qed

theorem Hand_cards_sorted_witness:
  "fst (Hand_cards \<lparr>player = 7, h_cards = [card_a, card_b, card_c, card_d]\<rparr>) =
     [card_d, card_b, card_c, card_a] \<and>
   map (\<lambda>c. (color c, ctype c, case cvalue c of None \<Rightarrow> 0 | Some v \<Rightarrow> v))
       [card_d, card_b, card_c, card_a] = [(0, 0, 9), (0, 1, 0), (1, 0, 0), (1, 0, 5)] \<and>
   sorted (map (\<lambda>c. (color c, ctype c, case cvalue c of None \<Rightarrow> 0 | Some v \<Rightarrow> v))
       (fst (Hand_cards \<lparr>player = 7, h_cards = [card_a, card_b, card_c, card_d]\<rparr>))) \<and>
   snd (Hand_cards \<lparr>player = 7, h_cards = [card_a, card_b, card_c, card_d]\<rparr>) =
     \<lparr>player = 7, h_cards = [card_a, card_b, card_c, card_d]\<rparr>"
proof -
  have order: "fst (Hand_cards \<lparr>player = 7, h_cards = [card_a, card_b, card_c, card_d]\<rparr>) =
      [card_d, card_b, card_c, card_a]"
    by (simp add: Hand_cards_def card_sort_key_def card_a_def card_b_def card_c_def card_d_def
        less_eq_prod_def less_prod_def)
  have keys: "map (\<lambda>c. (color c, ctype c, case cvalue c of None \<Rightarrow> 0 | Some v \<Rightarrow> v))
       [card_d, card_b, card_c, card_a] = [(0, 0, 9), (0, 1, 0), (1, 0, 0), (1, 0, 5)]"
    by (simp add: card_a_def card_b_def card_c_def card_d_def)
  from Hand_cards_sorted [of "\<lparr>player = 7, h_cards = [card_a, card_b, card_c, card_d]\<rparr>"]
    order keys
  show ?thesis by simp
qed

section \<open>Dealing\<close>

lemma length_shuffle_steps: "length (shuffle_steps rb i xs) = length xs"
  by (induction i arbitrary: xs) (simp_all add: Let_def)

lemma mset_shuffle_steps: "i < length xs \<Longrightarrow> mset (shuffle_steps rb i xs) = mset xs"
proof (induction i arbitrary: xs)
  case 0
  then show ?case by simp
next
  case (Suc i)
  let ?j = "rb (Suc i) mod (Suc i + 1)"
  let ?ys = "xs[Suc i := xs ! ?j, ?j := xs ! Suc i]"
  have j: "?j < length xs"
  proof -
    have "?j < Suc (Suc i)" by simp
    then have "?j \<le> Suc i" by (simp only: less_Suc_eq_le)
    then show ?thesis using Suc.prems by (rule le_less_trans)
  qed
  have "i < length ?ys" using Suc.prems by simp
  from Suc.IH [OF this] have "mset (shuffle_steps rb i ?ys) = mset ?ys" .
  also have "mset ?ys = mset xs"
    using mset_swap [OF j Suc.prems] .
  finally show ?case by (simp add: Let_def)
qed

lemma length_random_shuffle: "length (random_shuffle rb xs) = length xs"
  by (simp add: random_shuffle_def length_shuffle_steps)

lemma mset_random_shuffle: "mset (random_shuffle rb xs) = mset xs"
proof (cases xs)
  case Nil
  then show ?thesis by (simp add: random_shuffle_def)
next
  case (Cons x rest)
  then have "length xs - 1 < length xs" by simp
  from mset_shuffle_steps [OF this] show ?thesis
    by (simp add: random_shuffle_def)
qed

lemma length_sorted_list_of_fset: "length (sorted_list_of_fset S) = fcard S"
  by (simp add: sorted_list_of_fset.rep_eq fcard.rep_eq)

lemma distinct_sorted_list_of_fset: "distinct (sorted_list_of_fset S)"
  by (simp add: sorted_list_of_fset.rep_eq)

lemma deal_loop_enough:
  "7 * length hs \<le> length d \<Longrightarrow>
   \<exists>hs'. deal_loop hs d = (Inr (), hs', drop (7 * length hs) d) \<and>
     map player hs' = map player hs \<and>
     map (\<lambda>h. length (h_cards h)) hs' = map (\<lambda>h. length (h_cards h) + 7) hs"
proof (induction hs arbitrary: d)
  case Nil
  then show ?case by simp
next
  case (Cons h hs)
  let ?d = "drop 7 d"
  from Cons.prems have seven: "(1::int) \<le> 7" "7 \<le> int (length d)" by simp_all
  from Cons.prems have "7 * length hs \<le> length ?d" by simp
  from Cons.IH [OF this] obtain hs' where
    hs': "deal_loop hs ?d = (Inr (), hs', drop (7 * length hs) ?d)"
      "map player hs' = map player hs"
      "map (\<lambda>h. length (h_cards h)) hs' = map (\<lambda>h. length (h_cards h) + 7) hs"
    by blast
  have "drop (7 * length hs) ?d = drop (7 * length (h # hs)) d"
    by (simp add: add.commute)
  with hs' Cons.prems show ?case
    by (simp add: Hand_draw_enough [OF seven])
qed

lemma deal_loop_short:
  "length d < 7 * length hs \<Longrightarrow> fst (deal_loop hs d) = Inl IndexError"
proof (induction hs arbitrary: d)
  case Nil
  then show ?case by simp
next
  case (Cons h hs)
  show ?case
  proof (cases "7 \<le> length d")
    case True
    then have seven: "(1::int) \<le> 7" "7 \<le> int (length d)" by simp_all
    from True Cons.prems have "length (drop 7 d) < 7 * length hs" by simp
    from Cons.IH [OF this] show ?thesis
      by (auto simp add: Hand_draw_enough [OF seven] split: prod.split)
  next
    case False
    then have "length d < 7" by simp
    from draw_many_short [OF this] show ?thesis
      by (simp add: Hand_draw_def)
  qed
qed

lemma hands_run_initial_prompts:
  "length (hands (run_initial_prompts rb g)) = fcard (players g) \<and>
   mset (map player (hands (run_initial_prompts rb g))) = mset (sorted_list_of_fset (players g)) \<and>
   (\<forall>h \<in> set (hands (run_initial_prompts rb g)). h_cards h = [])"
proof -
  let ?hs = "map Hand_init (sorted_list_of_fset (players g))"
  have hands: "hands (run_initial_prompts rb g) = random_shuffle rb ?hs"
    by (simp add: run_initial_prompts_def choose_rule_set_def UNO_send_def Let_def)
  have m: "mset (random_shuffle rb ?hs) = mset ?hs"
    by (rule mset_random_shuffle)
  then have "mset (map player (random_shuffle rb ?hs)) = mset (map player ?hs)"
    by (simp only: mset_map)
  also have "map player ?hs = sorted_list_of_fset (players g)"
    by (simp add: Hand_init_def comp_def)
  finally have players: "mset (map player (random_shuffle rb ?hs)) =
      mset (sorted_list_of_fset (players g))" .
  from m have "set (random_shuffle rb ?hs) = set ?hs"
    by (rule mset_eq_setD)
  then have empty: "\<forall>h \<in> set (random_shuffle rb ?hs). h_cards h = []"
    by (auto simp add: Hand_init_def)
  from players empty show ?thesis
    by (simp add: hands length_random_shuffle length_sorted_list_of_fset)
qed

lemma frame_run_initial_prompts:
  "players (run_initial_prompts rb g) = players g \<and>
   deck (run_initial_prompts rb g) = deck g \<and>
   turn (run_initial_prompts rb g) = turn g \<and>
   host (run_initial_prompts rb g) = host g \<and>
   current (run_initial_prompts rb g) = current g \<and>
   rule_set (run_initial_prompts rb g) = Some RuleSet_default"
  by (simp add: run_initial_prompts_def choose_rule_set_def UNO_send_def Let_def)

lemma UNO_setup_enough:
  assumes "7 * length (hands g) + 1 \<le> length (deck g)"
  shows "\<exists>hs'. UNO_setup rb g =
      (Inr (), g\<lparr>deck := drop (7 * length (hands g) + 1) (Deck_shuffle rb (deck g)),
                 current := Some (hd (Deck_shuffle rb (deck g))),
                 hands := hs'\<rparr>) \<and>
     map player hs' = map player (hands g) \<and>
     map (\<lambda>h. length (h_cards h)) hs' = map (\<lambda>h. length (h_cards h) + 7) (hands g)"
proof -
  let ?d = "Deck_shuffle rb (deck g)"
  have len: "length ?d = length (deck g)"
    by (simp add: Deck_shuffle_def length_random_shuffle)
  with assms obtain c rest where d: "?d = c # rest"
    by (cases ?d) auto
  from assms len d have "7 * length (hands g) \<le> length rest" by simp
  from deal_loop_enough [OF this] obtain hs' where
    hs': "deal_loop (hands g) rest = (Inr (), hs', drop (7 * length (hands g)) rest)"
      "map player hs' = map player (hands g)"
      "map (\<lambda>h. length (h_cards h)) hs' = map (\<lambda>h. length (h_cards h) + 7) (hands g)"
    by blast
  from hs' show ?thesis
    by (intro exI [of _ hs']) (simp add: UNO_setup_def Let_def d Deck_pop_Cons deal_cards_def)
qed

lemma UNO_setup_short:
  assumes "length (deck g) < 7 * length (hands g) + 1"
  shows "fst (UNO_setup rb g) = Inl IndexError"
proof -
  let ?d = "Deck_shuffle rb (deck g)"
  have len: "length ?d = length (deck g)"
    by (simp add: Deck_shuffle_def length_random_shuffle)
  show ?thesis
  proof (cases ?d)
    case Nil
    then show ?thesis
      by (simp add: UNO_setup_def Let_def Deck_pop_Nil)
  next
    case (Cons c rest)
    with assms len have "length rest < 7 * length (hands g)" by simp
    from deal_loop_short [OF this] show ?thesis
      by (auto simp add: UNO_setup_def Let_def Cons Deck_pop_Cons deal_cards_def split: prod.split)
  qed
qed

lemma sorted_list_of_fset_empty: "sorted_list_of_fset ({||} :: member fset) = []"
  by (simp add: sorted_list_of_fset.rep_eq)

text \<open>
  The session without players, started: the deck \<open>[card_a, card_b]\<close> is shuffled to
  \<open>[card_b, card_a]\<close>, \<open>card_b\<close> becomes \<open>current\<close>, and there is no hand to deal to.
\<close>

lemma start_none:
  "UNO_start draws_zero draws_zero session_none =
     (Inr (), \<lparr>host = 1, rule_set = Some RuleSet_default, players = {||}, deck = [card_a],
        hands = [], current = Some card_b, turn = 0, message = Some Choose_rules\<rparr>)"
  by (simp add: UNO_start_def UNO_setup_def run_initial_prompts_def choose_rule_set_def
      UNO_send_def session_none_def UNO_init_def sorted_list_of_fset_empty random_shuffle_def
      Deck_shuffle_def draws_zero_def Deck_pop_def deal_cards_def Let_def)

text \<open>
  C1 (as the code has it). Let \<open>k\<close> be the number of members of \<open>players\<close> when
  \<open>UNO.start\<close> runs (\<open>_run_initial_prompts\<close> followed by \<open>_setup\<close>) on a session
  whose \<open>turn\<close> is 0, as \<open>__init__\<close> sets it. The dealing completes exactly when the
  deck holds at least \<open>7 * k + 1\<close> cards, and then: \<open>hands\<close> has length \<open>k\<close>, with
  one hand per member of \<open>players\<close>; each hand holds exactly 7 cards; exactly
  \<open>7 * k + 1\<close> cards have left the deck, the first card of the shuffled deck being
  \<open>current\<close>; \<open>players\<close> is as before; \<open>turn\<close> is 0; and \<open>turn\<close> is a valid
  index into \<open>hands\<close> when \<open>k \<ge> 1\<close>, while for \<open>k = 0\<close> there is no hand and
  \<open>current_hand\<close> raises IndexError.
\<close>

theorem dealing_postcondition:
  assumes "turn g = 0"
  shows "(fst (UNO_start rb_h rb_d g) = Inr ()) = (7 * fcard (players g) + 1 \<le> length (deck g)) \<and>
    (fst (UNO_start rb_h rb_d g) = Inr () \<longrightarrow>
       length (hands (snd (UNO_start rb_h rb_d g))) = fcard (players g) \<and>
       set (map player (hands (snd (UNO_start rb_h rb_d g)))) = fset (players g) \<and>
       distinct (map player (hands (snd (UNO_start rb_h rb_d g)))) \<and>
       (\<forall>h \<in> set (hands (snd (UNO_start rb_h rb_d g))). length (h_cards h) = 7) \<and>
       length (deck (snd (UNO_start rb_h rb_d g))) + (7 * fcard (players g) + 1) =
         length (deck g) \<and>
       deck (snd (UNO_start rb_h rb_d g)) =
         drop (7 * fcard (players g) + 1) (Deck_shuffle rb_d (deck g)) \<and>
       current (snd (UNO_start rb_h rb_d g)) = Some (hd (Deck_shuffle rb_d (deck g))) \<and>
       players (snd (UNO_start rb_h rb_d g)) = players g \<and>
       turn (snd (UNO_start rb_h rb_d g)) = 0 \<and>
       current_hand (snd (UNO_start rb_h rb_d g)) =
         (if fcard (players g) = 0 then Inl IndexError
          else Inr (hands (snd (UNO_start rb_h rb_d g)) ! 0)))"
proof -
  let ?g1 = "run_initial_prompts rb_h g"
  let ?k = "fcard (players g)"
  note h1 = hands_run_initial_prompts [of rb_h g]
  note f1 = frame_run_initial_prompts [of rb_h g]
  show ?thesis
  proof (cases "7 * ?k + 1 \<le> length (deck g)")
    case False
    with h1 f1 have "length (deck ?g1) < 7 * length (hands ?g1) + 1" by simp
    from UNO_setup_short [OF this] False show ?thesis
      by (simp add: UNO_start_def)
  next
    case True
    with h1 f1 have "7 * length (hands ?g1) + 1 \<le> length (deck ?g1)" by simp
    from UNO_setup_enough [OF this] obtain hs' where
      res: "UNO_setup rb_d ?g1 =
        (Inr (), ?g1\<lparr>deck := drop (7 * length (hands ?g1) + 1) (Deck_shuffle rb_d (deck ?g1)),
                 current := Some (hd (Deck_shuffle rb_d (deck ?g1))),
                 hands := hs'\<rparr>)"
      and pl: "map player hs' = map player (hands ?g1)"
      and ln: "map (\<lambda>h. length (h_cards h)) hs' = map (\<lambda>h. length (h_cards h) + 7) (hands ?g1)"
      by blast
    from pl have len: "length hs' = ?k"
      using h1 by (metis length_map)
    from ln h1 have "map (\<lambda>h. length (h_cards h)) hs' = map (\<lambda>h. 7) (hands ?g1)"
      by simp
    then have "\<forall>n \<in> set (map (\<lambda>h. length (h_cards h)) hs'). n = 7"
      by auto
    then have seven: "\<forall>h \<in> set hs'. length (h_cards h) = 7"
      by simp
    have dl: "length (Deck_shuffle rb_d (deck g)) = length (deck g)"
      by (simp add: Deck_shuffle_def length_random_shuffle)
    from len have cur: "current_hand (?g1\<lparr>deck := drop (7 * length (hands ?g1) + 1) (Deck_shuffle rb_d (deck ?g1)),
                 current := Some (hd (Deck_shuffle rb_d (deck ?g1))),
                 hands := hs'\<rparr>) = (if ?k = 0 then Inl IndexError else Inr (hs' ! 0))"
      using assms f1 by (cases "hs' = []") (auto simp add: current_hand_def fcard_fempty)
    from h1 have "mset (map player (hands ?g1)) = mset (sorted_list_of_fset (players g))"
      by simp
    then have "set (map player (hands ?g1)) = set (sorted_list_of_fset (players g))"
      and "distinct (map player (hands ?g1)) = distinct (sorted_list_of_fset (players g))"
      by (rule mset_eq_setD, rule mset_eq_imp_distinct_iff)
    with pl have one_each: "set (map player hs') = fset (players g)" "distinct (map player hs')"
      by (simp_all add: distinct_sorted_list_of_fset)
    from h1 have lenh: "length (hands ?g1) = ?k" by simp
    from True len lenh seven one_each f1 assms dl cur show ?thesis
      by (simp add: UNO_start_def res fcard_fempty)
  qed
qed

theorem dealing_postcondition_witness:
  "fst (UNO_start draws_zero draws_zero session_two) = Inr () \<and>
   length (hands (snd (UNO_start draws_zero draws_zero session_two))) = 2 \<and>
   map (\<lambda>h. length (h_cards h)) (hands (snd (UNO_start draws_zero draws_zero session_two))) =
     [7, 7] \<and>
   length (deck (snd (UNO_start draws_zero draws_zero session_two))) = 5 \<and>
   turn (snd (UNO_start draws_zero draws_zero session_two)) = 0 \<and>
   current_hand (snd (UNO_start draws_zero draws_zero session_two)) =
     Inr (hands (snd (UNO_start draws_zero draws_zero session_two)) ! 0)"
proof -
  have t: "turn session_two = 0"
    by (simp add: session_two_def UNO_init_def)
  have k: "fcard (players session_two) = 2"
    by (simp add: session_two_def UNO_init_def fcard_finsert_if fcard_fempty)
  have d: "length (deck session_two) = 20"
    by (simp add: session_two_def UNO_init_def)
  have two: "map f xs = [y, y]" if "length xs = 2" and "\<forall>x \<in> set xs. f x = y"
    for f :: "hand \<Rightarrow> nat" and xs y
    using that by (cases xs; cases "tl xs") auto
  from dealing_postcondition [OF t, of draws_zero draws_zero] k d show ?thesis
    by (simp add: Deck_shuffle_def length_random_shuffle two)
qed

text \<open>
  C1 as stated fails for a session without players, the session the play command
  constructs: the dealing completes, \<open>turn\<close> is 0, and 0 is not a valid index into the
  empty list of hands.
\<close>

theorem dealing_counterexample:
  "fst (UNO_start draws_zero draws_zero session_none) = Inr () \<and>
   fcard (players session_none) = 0 \<and>
   hands (snd (UNO_start draws_zero draws_zero session_none)) = [] \<and>
   turn (snd (UNO_start draws_zero draws_zero session_none)) = 0 \<and>
   current_hand (snd (UNO_start draws_zero draws_zero session_none)) = Inl IndexError"
proof -
  have "fcard (players session_none) = 0"
    by (simp add: session_none_def UNO_init_def fcard_fempty)
  then show ?thesis
    by (simp add: start_none current_hand_def del: fcard_0_eq)
qed

section \<open>Rule-set negotiation\<close>

lemma set_flags_eq:
  "set_flags vals r =
     \<lparr>stacking = (''stacking'' \<in> set vals), progressive = (''progressive'' \<in> set vals),
      seven_o = (''seven_o'' \<in> set vals), jump_in = (''jump_in'' \<in> set vals)\<rparr>"
  by (simp add: set_flags_def CHOICES_def setattr_RuleSet_def)

text \<open>
  C2. On a session whose rule set exists (as it does once \<open>choose_rule_set\<close> has run),
  \<open>RuleSetPrompt.callback\<close> with the selection \<open>vals\<close> leaves each of the four flags
  true exactly when its name is in \<open>vals\<close>, whatever the flags were, and changes nothing
  else; selecting stacking and jump_in and then nothing leaves all four flags false.
\<close>

theorem rule_change_replaces:
  "rule_set g = Some r \<Longrightarrow>
   RuleSetPrompt_callback vals g =
     (Deferred, g\<lparr>rule_set := Some
        \<lparr>stacking = (''stacking'' \<in> set vals), progressive = (''progressive'' \<in> set vals),
         seven_o = (''seven_o'' \<in> set vals), jump_in = (''jump_in'' \<in> set vals)\<rparr>\<rparr>) \<and>
   snd (RuleSetPrompt_callback []
      (snd (RuleSetPrompt_callback [''stacking'', ''jump_in''] g))) =
     g\<lparr>rule_set := Some
        \<lparr>stacking = False, progressive = False, seven_o = False, jump_in = False\<rparr>\<rparr>"
  by (simp add: RuleSetPrompt_callback_def set_flags_eq)

theorem rule_change_replaces_witness:
  "RuleSetPrompt_callback [''seven_o''] (choose_rule_set session_none) =
     (Deferred, (choose_rule_set session_none)\<lparr>rule_set := Some
        \<lparr>stacking = False, progressive = False, seven_o = True, jump_in = False\<rparr>\<rparr>)"
proof -
  have "rule_set (choose_rule_set session_none) = Some RuleSet_default"
    by (simp add: choose_rule_set_def UNO_send_def)
  from rule_change_replaces [OF this, of "[''seven_o'']"] show ?thesis
    by simp
qed

section \<open>Queueing\<close>

lemma players_queue_players:
  "players (game (queue_players g)) = finsert (host g) (players g) \<and>
   host (game (queue_players g)) = host g"
  by (simp add: queue_players_def PlayerQueueingView_init_def update_def UNO_send_def Let_def)

lemma host_update: "host (game (update v)) = host (game v)"
  by (simp add: update_def UNO_send_def Let_def)

lemma players_update: "players (game (update v)) = players (game v)"
  by (simp add: update_def UNO_send_def Let_def)

lemma handle_host: "host (game (snd (handle ev v))) = host (game v)"
  by (cases ev) (auto simp: interaction_check_def join_def leave_def start_now_def host_update
     RuleSetPrompt_callback_def split: option.splits)

lemma handle_keeps_host:
  "host (game v) |\<in>| players (game v) \<Longrightarrow>
   host (game v) |\<in>| players (game (snd (handle ev v)))"
  by (cases ev) (auto simp: interaction_check_def join_def leave_def start_now_def players_update
     RuleSetPrompt_callback_def split: option.splits)

lemma run_keeps_host:
  "host (game v) |\<in>| players (game v) \<Longrightarrow>
   host (game (run evs v)) = host (game v) \<and> host (game v) |\<in>| players (game (run evs v))"
proof (induction evs arbitrary: v)
  case Nil
  then show ?case by simp
next
  case (Cons ev evs)
  let ?v = "snd (handle ev v)"
  have "host (game ?v) |\<in>| players (game ?v)"
    using handle_keeps_host [OF Cons.prems, of ev] by (simp add: handle_host)
  from Cons.IH [OF this] show ?case by (simp add: handle_host)
qed

lemma queue_one_state:
  "host (game queue_one) = 1 \<and> players (game queue_one) = {|1|}"
  by (simp add: queue_one_def players_queue_players session_none_def UNO_init_def)

text \<open>
  C3. An interaction is answered with a notice to the acting member exactly when it is
  one of the rejected ones (a member other than the host changing the rules or pressing
  start, a join by a member, a leave by a non-member or by the host, a start with fewer
  than two players), and then the state after the handler (the session with players,
  rule set, hands, deck, turn, current and message, and the view's flags) is the state
  before it.
\<close>

theorem rejection_atomicity:
  "is_notice (fst (handle ev v)) = rejected ev v \<and>
   (rejected ev v \<longrightarrow> snd (handle ev v) = v)"
  by (cases ev)
    (auto simp: interaction_check_def join_def leave_def start_now_def
      RuleSetPrompt_callback_def split: option.splits)

theorem rejection_atomicity_witness:
  "rejected (Join 1) queue_one \<and> snd (handle (Join 1) queue_one) = queue_one \<and>
   rejected (Leave 1) queue_one \<and> snd (handle (Leave 1) queue_one) = queue_one \<and>
   rejected (Leave 2) queue_one \<and> snd (handle (Leave 2) queue_one) = queue_one \<and>
   rejected (Start_now 1) queue_one \<and> snd (handle (Start_now 1) queue_one) = queue_one \<and>
   rejected (Start_now 2) queue_one \<and> snd (handle (Start_now 2) queue_one) = queue_one \<and>
   rejected (Rule_change 2 []) queue_one \<and>
   snd (handle (Rule_change 2 []) queue_one) = queue_one"
proof -
  have r: "rejected (Join 1) queue_one" "rejected (Leave 1) queue_one"
    "rejected (Leave 2) queue_one" "rejected (Start_now 1) queue_one"
    "rejected (Start_now 2) queue_one" "rejected (Rule_change 2 []) queue_one"
    by (simp_all add: queue_one_state fcard_finsert_if fcard_fempty)
  from r rejection_atomicity [of "Join 1" queue_one]
    rejection_atomicity [of "Leave 1" queue_one]
    rejection_atomicity [of "Leave 2" queue_one]
    rejection_atomicity [of "Start_now 1" queue_one]
    rejection_atomicity [of "Start_now 2" queue_one]
    rejection_atomicity [of "Rule_change 2 []" queue_one]
  show ?thesis by blast
qed

text \<open>
  C5. Creating the queueing view adds the host to the players, which leaves the set as it
  is when the host is already in it; and after any sequence of interactions handled from
  the entry to the queueing stage on, the host is the same member and is in the players.
\<close>

theorem host_always_member:
  "(host g |\<in>| players g \<longrightarrow> players (game (PlayerQueueingView_init g)) = players g) \<and>
   host g |\<in>| players (game (PlayerQueueingView_init g)) \<and>
   host (game (run evs (queue_players g))) = host g \<and>
   host g |\<in>| players (game (run evs (queue_players g)))"
proof -
  have "host (game (queue_players g)) |\<in>| players (game (queue_players g))"
    by (simp add: players_queue_players)
  from run_keeps_host [OF this, of evs] show ?thesis
    by (auto simp add: players_queue_players PlayerQueueingView_init_def)
qed

theorem host_always_member_witness:
  "host session_two |\<in>| players session_two \<and>
   players (game (PlayerQueueingView_init session_two)) = players session_two \<and>
   host (game (run [Join 2, Leave 1, Leave 2, Leave 1] (queue_players session_none))) = 1 \<and>
   1 |\<in>| players (game (run [Join 2, Leave 1, Leave 2, Leave 1] (queue_players session_none)))"
proof -
  have two: "host session_two |\<in>| players session_two"
    by (simp add: session_two_def UNO_init_def)
  have one: "host session_none = 1"
    by (simp add: session_none_def UNO_init_def)
  from two one host_always_member [of session_two "[]"]
    host_always_member [of session_none "[Join 2, Leave 1, Leave 2, Leave 1]"]
  show ?thesis by simp
qed

text \<open>
  C10. The "Start!" button is created disabled; after \<open>_update\<close> its disabled flag is
  (number of players > 1), so with two or more players it is disabled; it is enabled
  after \<open>_update\<close> exactly when the host's press is answered with the notice that at
  least 2 players are needed; and the flag equals (number of players > 1) after any
  sequence of interactions handled from the entry to the queueing stage on.
\<close>

lemma update_button: "button_follows_roster (update v)"
  by (simp add: button_follows_roster_def update_def UNO_send_def Let_def)

lemma handle_button:
  assumes "button_follows_roster v"
  shows "button_follows_roster (snd (handle ev v))"
proof (cases ev)
  case (Rule_change user vals)
  with assms show ?thesis
    by (auto simp: interaction_check_def RuleSetPrompt_callback_def button_follows_roster_def
        split: option.splits)
next
  case (Join user)
  with assms show ?thesis
    by (simp add: join_def update_button)
next
  case (Leave user)
  with assms show ?thesis
    by (simp add: leave_def update_button)
next
  case (Start_now user)
  with assms show ?thesis
    by (simp add: start_now_def button_follows_roster_def)
qed

lemma run_button: "button_follows_roster v \<Longrightarrow> button_follows_roster (run evs v)"
  by (induction evs arbitrary: v) (simp_all add: handle_button)

theorem start_button_inverted:
  "start_disabled (PlayerQueueingView_init g) \<and>
   start_disabled (update v) = (1 < fcard (players (game v))) \<and>
   (2 \<le> fcard (players (game v)) \<longrightarrow> start_disabled (update v)) \<and>
   (\<not> start_disabled (update v)) =
     (fst (start_now (host (game (update v))) (update v)) =
        Notice ''There must be at least 2 players in order to start this game.'') \<and>
   start_disabled (run evs (queue_players g)) =
     (1 < fcard (players (game (run evs (queue_players g)))))"
proof -
  have "button_follows_roster (queue_players g)"
    by (simp add: queue_players_def Let_def update_button)
  then have "button_follows_roster (run evs (queue_players g))"
    by (rule run_button)
  then show ?thesis
    by (auto simp add: button_follows_roster_def PlayerQueueingView_init_def update_def
        UNO_send_def Let_def start_now_def)
qed

theorem start_button_inverted_witness:
  "\<not> start_disabled (update queue_one) \<and>
   fst (start_now 1 (update queue_one)) =
     Notice ''There must be at least 2 players in order to start this game.'' \<and>
   2 \<le> fcard (players (game (queue_players session_two))) \<and>
   start_disabled (update (queue_players session_two))"
proof -
  have two: "fcard (players (game (queue_players session_two))) = 2"
    by (simp add: players_queue_players session_two_def UNO_init_def fcard_finsert_if
        fcard_fempty)
  have one: "fcard (players (game queue_one)) = 1" "host (game (update queue_one)) = 1"
    by (simp_all add: queue_one_state host_update fcard_finsert_if fcard_fempty)
  from two one start_button_inverted [of session_none queue_one "[]"]
    start_button_inverted [of session_two "queue_players session_two" "[]"]
  show ?thesis by auto
qed

section \<open>The play command\<close>

lemma unregister_idem:
  "unregister ch reg ch = None \<and> unregister ch (unregister ch reg) = unregister ch reg \<and>
   (reg ch = None \<longrightarrow> unregister ch reg = reg)"
  by (simp add: unregister_def split: option.split)

text \<open>
  C7. A play command for a channel that has an entry in the instance map is answered
  with the already-running notice; no session is created, and the map, with the entry of
  the channel and the session in it (players, turn and hands included), is as before.
\<close>

theorem duplicate_session_rejected:
  "reg ch = Some running \<Longrightarrow>
   play_uno rb_h rb_d fresh author ch reg =
     (Inr (Sent ''An instance of UNO is already running in this channel.''), reg)"
  by (simp add: play_uno_def already_running_def)

theorem duplicate_session_rejected_witness:
  "play_uno draws_zero draws_zero [card_a] 9 5 [5 \<mapsto> session_two] =
     (Inr (Sent ''An instance of UNO is already running in this channel.''),
      [5 \<mapsto> session_two])"
  using duplicate_session_rejected
    [of "[5 \<mapsto> session_two]" 5 session_two draws_zero draws_zero "[card_a]" 9]
  by simp

text \<open>
  C8 (what the code does). A play command for a channel without an entry registers the
  session and never removes it: the command ends with an exception (of \<open>start\<close>, or
  the AttributeError of \<open>game.wait()\<close>), never with the removal, and the channel's
  entry is still in the map.
\<close>

theorem play_uno_never_unregisters:
  "reg ch = None \<Longrightarrow>
   fst (play_uno rb_h rb_d fresh author ch reg) \<noteq> Inr Finished \<and>
   snd (play_uno rb_h rb_d fresh author ch reg) ch \<noteq> None"
  by (simp add: play_uno_def UNO_wait_def Let_def split: prod.split sum.split)

lemma play_uno_none:
  "play_uno draws_zero draws_zero [card_a, card_b] 1 5 Map.empty =
     (Inl AttributeError,
      [5 \<mapsto> \<lparr>host = 1, rule_set = Some RuleSet_default, players = {||}, deck = [card_a],
         hands = [], current = Some card_b, turn = 0, message = Some Choose_rules\<rparr>])"
  using start_none by (simp add: play_uno_def UNO_wait_def session_none_def)

theorem play_uno_never_unregisters_witness:
  "play_uno draws_zero draws_zero [card_a, card_b] 1 5 Map.empty =
     (Inl AttributeError,
      [5 \<mapsto> \<lparr>host = 1, rule_set = Some RuleSet_default, players = {||}, deck = [card_a],
         hands = [], current = Some card_b, turn = 0, message = Some Choose_rules\<rparr>]) \<and>
   fst (play_uno draws_zero draws_zero [card_a, card_b] 1 5 Map.empty) \<noteq> Inr Finished \<and>
   snd (play_uno draws_zero draws_zero [card_a, card_b] 1 5 Map.empty) 5 \<noteq> None"
proof -
  have "Map.empty (5::nat) = (None :: session option)" by simp
  from play_uno_never_unregisters [OF this, of draws_zero draws_zero "[card_a, card_b]" 1]
    play_uno_none
  show ?thesis by simp
qed

end
